theory Spec2Isabelle
  imports Complex_Main "HOL-Library.AList" "HOL-Library.Multiset"
    "HOL-Library.Option_ord" "HOL-Library.Product_Lexorder"
begin

section \<open>Data model\<close>

text \<open>
  The scripts work on JSON objects, that is on Python dictionaries with string keys.
  A dictionary is an association list in insertion order with distinct keys:
  \<open>d[k]\<close> is \<open>getitem d k\<close> (a missing key raises \<open>KeyError\<close>), and
  \<open>{**d, k: v}\<close> is \<open>AList.update k v d\<close>, which overwrites the entry of \<open>k\<close> in
  place or appends it, as Python does.

  The values of an alias are integers (day, hour, minute, height) and strings (month,
  name). The weight, a binary floating point number, is never read by the detection
  pipeline (the only tracked field is the height) and has no counterpart among the
  values below.
\<close>

datatype pyval = PInt int | PStr string

datatype py_error = KeyError | TypeError | ValueError | AttributeError

type_synonym alias_record = "(string \<times> pyval) list"

definition getitem :: "(string \<times> 'v) list \<Rightarrow> string \<Rightarrow> py_error + 'v" where
  "getitem d k = (case map_of d k of None \<Rightarrow> Inl KeyError | Some v \<Rightarrow> Inr v)"

text \<open>
  A delta is the dictionary \<open>{'from': .., 'to': .., 'deltas': ..}\<close>. The values of
  its \<open>deltas\<close> dictionary are results of integer subtraction.
\<close>

record delta =
  d_from :: alias_record
  d_to :: alias_record
  deltas :: "(string \<times> int) list"

section \<open>find_profile_changes.py: get_deltas\<close>

text \<open>\<open>x - y\<close> on values: defined on two integers, a \<open>TypeError\<close> otherwise.\<close>

fun py_sub :: "pyval \<Rightarrow> pyval \<Rightarrow> py_error + int" where
  "py_sub (PInt a) (PInt b) = Inr (a - b)"
| "py_sub _ _ = Inl TypeError"

text \<open>
  The dictionary comprehension
  \<^verbatim>\<open>{f: last[f] - alias[f] for f in fields if last[f] - alias[f] != 0}\<close>,
  as the loop it is: the fields are visited in order, \<open>last[f]\<close> is read before
  \<open>alias[f]\<close>, and the entry is stored in the dictionary built so far.
\<close>

fun dict_comp ::
  "alias_record \<Rightarrow> alias_record \<Rightarrow> string list \<Rightarrow> (string \<times> int) list \<Rightarrow> py_error + (string \<times> int) list"
where
  "dict_comp last' alias [] acc = Inr acc"
| "dict_comp last' alias (f # fs) acc =
     (case getitem last' f of
        Inl e \<Rightarrow> Inl e
      | Inr x \<Rightarrow>
          (case getitem alias f of
             Inl e \<Rightarrow> Inl e
           | Inr y \<Rightarrow>
               (case py_sub x y of
                  Inl e \<Rightarrow> Inl e
                | Inr d \<Rightarrow>
                    dict_comp last' alias fs
                      (if d \<noteq> 0 then AList.update f d acc else acc))))"

text \<open>
  The generator \<open>get_deltas\<close>, consumed to its end: \<open>last\<close> starts as \<open>None\<close>, and
  a pair whose dictionary of differences is empty yields nothing.
\<close>

fun get_deltas_loop :: "alias_record option \<Rightarrow> alias_record list \<Rightarrow> string list \<Rightarrow> py_error + delta list" where
  "get_deltas_loop last' [] fields' = Inr []"
| "get_deltas_loop None (alias # rest) fields' = get_deltas_loop (Some alias) rest fields'"
| "get_deltas_loop (Some last') (alias # rest) fields' =
     (case dict_comp last' alias fields' [] of
        Inl e \<Rightarrow> Inl e
      | Inr ds \<Rightarrow>
          (case get_deltas_loop (Some alias) rest fields' of
             Inl e \<Rightarrow> Inl e
           | Inr out \<Rightarrow>
               Inr (if ds \<noteq> []
                    then \<lparr>d_from = alias, d_to = last', deltas = ds\<rparr> # out
                    else out)))"

definition get_deltas :: "alias_record list \<Rightarrow> string list \<Rightarrow> py_error + delta list" where
  "get_deltas aliases fields' = get_deltas_loop None aliases fields'"

section \<open>find_profile_changes.py: filter_deltas\<close>

text \<open>
  \<open>retain.get(k, lambda x: True)(v)\<close>: the predicate stored for \<open>k\<close>, or the
  constant \<open>True\<close> when \<open>retain\<close> has no entry for \<open>k\<close>.
\<close>

definition retained :: "(string \<rightharpoonup> (int \<Rightarrow> bool)) \<Rightarrow> string \<times> int \<Rightarrow> bool" where
  "retained retain kv = (case retain (fst kv) of None \<Rightarrow> True | Some p \<Rightarrow> p (snd kv))"

definition filter_deltas :: "(string \<rightharpoonup> (int \<Rightarrow> bool)) \<Rightarrow> delta list \<Rightarrow> delta list" where
  "filter_deltas retain ds =
     (let filtered = map (\<lambda>d. d\<lparr>deltas := filter (retained retain) (deltas d)\<rparr>) ds
      in filter (\<lambda>d. deltas d \<noteq> []) filtered)"

text \<open>The fixed policy of \<open>get_suspicious_deltas\<close>: \<open>{'height': lambda x: abs(x) >= 5}\<close>.\<close>

definition height_policy :: "string \<rightharpoonup> (int \<Rightarrow> bool)" where
  "height_policy = [''height'' \<mapsto> (\<lambda>x. \<bar>x\<bar> \<ge> 5)]"

definition get_suspicious_deltas :: "alias_record list \<Rightarrow> py_error + delta list" where
  "get_suspicious_deltas aliases =
     (case get_deltas aliases [''height''] of
        Inl e \<Rightarrow> Inl e
      | Inr ds \<Rightarrow> Inr (filter_deltas height_policy ds))"

section \<open>find_profile_changes.py: backfill_heights\<close>

text \<open>
  \<open>next(a['height'] for a in .. if a['height'] != 0)\<close> on a list: the first height
  that is not \<open>0\<close>; \<open>None\<close> stands for \<open>StopIteration\<close>. The generator is lazy, so
  an alias after the first hit is not read.
\<close>

fun first_nonzero_height :: "alias_record list \<Rightarrow> py_error + pyval option" where
  "first_nonzero_height [] = Inr None"
| "first_nonzero_height (a # as) =
     (case getitem a ''height'' of
        Inl e \<Rightarrow> Inl e
      | Inr h \<Rightarrow> if h \<noteq> PInt 0 then Inr (Some h) else first_nonzero_height as)"

text \<open>\<open>itertools.takewhile(lambda a: a['height'] == 0, ..)\<close>, consumed to its end.\<close>

fun takewhile_zero :: "alias_record list \<Rightarrow> py_error + alias_record list" where
  "takewhile_zero [] = Inr []"
| "takewhile_zero (a # as) =
     (case getitem a ''height'' of
        Inl e \<Rightarrow> Inl e
      | Inr h \<Rightarrow>
          if h = PInt 0
          then (case takewhile_zero as of Inl e \<Rightarrow> Inl e | Inr r \<Rightarrow> Inr (a # r))
          else Inr [])"

text \<open>
  \<open>itertools.dropwhile(lambda a: a['height'] == 0, ..)\<close>: once the predicate has
  failed, the rest is passed on unread.
\<close>

fun dropwhile_zero :: "alias_record list \<Rightarrow> py_error + alias_record list" where
  "dropwhile_zero [] = Inr []"
| "dropwhile_zero (a # as) =
     (case getitem a ''height'' of
        Inl e \<Rightarrow> Inl e
      | Inr h \<Rightarrow> if h = PInt 0 then dropwhile_zero as else Inr (a # as))"

definition backfill_heights :: "alias_record list \<Rightarrow> py_error + alias_record list" where
  "backfill_heights aliases =
     (case first_nonzero_height (rev aliases) of
        Inl e \<Rightarrow> Inl e
      | Inr None \<Rightarrow> Inr aliases
      | Inr (Some first_height) \<Rightarrow>
          (case takewhile_zero (rev aliases) of
             Inl e \<Rightarrow> Inl e
           | Inr tw \<Rightarrow>
               (case dropwhile_zero (rev aliases) of
                  Inl e \<Rightarrow> Inl e
                | Inr dw \<Rightarrow>
                    (let backfilled = rev (map (AList.update ''height'' first_height) tw);
                         default' = rev dw
                     in Inr (default' @ backfilled)))))"

section \<open>find_profile_changes.py: format_date and the report of one rider\<close>

text \<open>
  \<open>str.capitalize\<close> on the ASCII letters: the first character in upper case, the
  others in lower case.
\<close>

definition lower_letters :: string where
  "lower_letters = ''abcdefghijklmnopqrstuvwxyz''"

definition upper_letters :: string where
  "upper_letters = ''ABCDEFGHIJKLMNOPQRSTUVWXYZ''"

definition to_upper :: "char \<Rightarrow> char" where
  "to_upper c = (case map_of (zip lower_letters upper_letters) c of None \<Rightarrow> c | Some u \<Rightarrow> u)"

definition to_lower :: "char \<Rightarrow> char" where
  "to_lower c = (case map_of (zip upper_letters lower_letters) c of None \<Rightarrow> c | Some l \<Rightarrow> l)"

definition capitalize :: "string \<Rightarrow> string" where
  "capitalize s = (case s of [] \<Rightarrow> [] | c # cs \<Rightarrow> to_upper c # map to_lower cs)"

text \<open>\<open>str(n)\<close> of an integer: its decimal digits, after a minus sign when negative.\<close>

definition digit_char :: "nat \<Rightarrow> char" where
  "digit_char n = ''0123456789'' ! n"

function str_nat :: "nat \<Rightarrow> string" where
  "str_nat n = (if n < 10 then [digit_char n] else str_nat (n div 10) @ [digit_char (n mod 10)])"
  by pat_completeness auto
termination
  by (relation "measure id") auto

definition str_int :: "int \<Rightarrow> string" where
  "str_int i = (if i < 0 then CHR ''-'' # str_nat (nat (- i)) else str_nat (nat i))"

text \<open>The replacement field \<open>{v}\<close> of an f-string: \<open>format(v, '')\<close>.\<close>

definition format_plain :: "pyval \<Rightarrow> string" where
  "format_plain v = (case v of PInt i \<Rightarrow> str_int i | PStr s \<Rightarrow> s)"

text \<open>
  The replacement field \<open>{v:02}\<close>: an integer is padded with zeros after its sign to
  two characters; a string is padded with zeros on its right (Python 3.10 and later).
\<close>

definition format_02 :: "pyval \<Rightarrow> string" where
  "format_02 v =
     (case v of
        PInt i \<Rightarrow>
          (if i < 0 then CHR ''-'' # str_nat (nat (- i))
           else replicate (2 - length (str_nat (nat i))) (CHR ''0'') @ str_nat (nat i))
      | PStr s \<Rightarrow> s @ replicate (2 - length s) (CHR ''0''))"

text \<open>
  \<^verbatim>\<open>f"{o['month'].capitalize()} {o['day']} {o['hour']:02}:{o['minute']:02}"\<close>:
  the fields are read from left to right; an integer has no \<open>capitalize\<close>.
\<close>

definition format_date :: "alias_record \<Rightarrow> py_error + string" where
  "format_date o' =
     (case getitem o' ''month'' of
        Inl e \<Rightarrow> Inl e
      | Inr (PInt _) \<Rightarrow> Inl AttributeError
      | Inr (PStr month) \<Rightarrow>
          (case getitem o' ''day'' of
             Inl e \<Rightarrow> Inl e
           | Inr day \<Rightarrow>
               (case getitem o' ''hour'' of
                  Inl e \<Rightarrow> Inl e
                | Inr hour \<Rightarrow>
                    (case getitem o' ''minute'' of
                       Inl e \<Rightarrow> Inl e
                     | Inr minute \<Rightarrow>
                         Inr (capitalize month @ '' '' @ format_plain day @ '' '' @
                              format_02 hour @ '':'' @ format_02 minute)))))"

record change =
  date :: string
  height_change :: int

definition describe_suspicious_delta :: "delta \<Rightarrow> py_error + change" where
  "describe_suspicious_delta d =
     (case format_date (d_to d) of
        Inl e \<Rightarrow> Inl e
      | Inr s \<Rightarrow>
          (case getitem (deltas d) ''height'' of
             Inl e \<Rightarrow> Inl e
           | Inr c \<Rightarrow> Inr \<lparr>date = s, height_change = c\<rparr>))"

text \<open>A list comprehension \<open>[f(x) for x in xs]\<close> whose \<open>f\<close> may raise.\<close>

fun map_err :: "('a \<Rightarrow> py_error + 'b) \<Rightarrow> 'a list \<Rightarrow> py_error + 'b list" where
  "map_err f [] = Inr []"
| "map_err f (x # xs) =
     (case f x of
        Inl e \<Rightarrow> Inl e
      | Inr y \<Rightarrow> (case map_err f xs of Inl e \<Rightarrow> Inl e | Inr ys \<Rightarrow> Inr (y # ys)))"

text \<open>
  A profile and a report share the rider's identifier and points. The identifier is
  the integer that the scraper reads; the points are a decimal number or \<open>None\<close>
  (\<open>get_zp_points\<close> returns \<open>None\<close> when the page has no racing licence row). The
  points are taken with their exact rational value.
\<close>

record rider =
  zwiftid :: int
  zwiftpower_points :: "rat option"

record profile = rider +
  aliases :: "alias_record list"

record report = rider +
  suspicious_profile_changes :: "change list"

definition describe_suspicious_profile :: "profile \<Rightarrow> py_error + report option" where
  "describe_suspicious_profile p =
     (case backfill_heights (aliases p) of
        Inl e \<Rightarrow> Inl e
      | Inr backfilled \<Rightarrow>
          (case get_suspicious_deltas backfilled of
             Inl e \<Rightarrow> Inl e
           | Inr suspicious_deltas \<Rightarrow>
               if suspicious_deltas = [] then Inr None
               else
                 (case map_err describe_suspicious_delta suspicious_deltas of
                    Inl e \<Rightarrow> Inl e
                  | Inr changes \<Rightarrow>
                      Inr (Some \<lparr>zwiftid = zwiftid p,
                                 zwiftpower_points = zwiftpower_points p,
                                 suspicious_profile_changes = changes\<rparr>))))"

section \<open>find_profile_changes.py: main\<close>





section \<open>find_profile_changes.py: numeric_month\<close>

text \<open>
  The table \<open>months\<close>: the twelve words of the string literal, numbered from 1.
\<close>

definition month_words :: "string list" where
  "month_words = [''jan'', ''feb'', ''mar'', ''apr'', ''may'', ''jun'',
                  ''jul'', ''aug'', ''sep'', ''oct'', ''nov'', ''dec'']"

definition months :: "(string \<times> int) list" where
  "months = zip month_words [1..int (length month_words)]"

text \<open>\<open>months[month]\<close>: an integer is a valid key that the table does not have.\<close>

definition numeric_month :: "pyval \<Rightarrow> py_error + int" where
  "numeric_month month =
     (case month of PInt _ \<Rightarrow> Inl KeyError | PStr s \<Rightarrow> getitem months s)"

definition numeric_months :: "alias_record list \<Rightarrow> py_error + alias_record list" where
  "numeric_months as =
     map_err (\<lambda>alias.
       case getitem alias ''month'' of
         Inl e \<Rightarrow> Inl e
       | Inr m \<Rightarrow>
           (case numeric_month m of
              Inl e \<Rightarrow> Inl e
            | Inr n \<Rightarrow> Inr (AList.update ''month'' (PInt n) alias))) as"

section \<open>anonymise.py\<close>

text \<open>
  \<open>int(s)\<close> on a string: white space is stripped from both ends, a sign may follow,
  then decimal digits, where single underscores may stand between two digits.
\<close>

definition is_space :: "char \<Rightarrow> bool" where
  "is_space c \<longleftrightarrow> c \<in> set [CHR '' '', CHR 0x09, CHR 0x0A, CHR 0x0B, CHR 0x0C, CHR 0x0D]"

definition strip :: "string \<Rightarrow> string" where
  "strip s = dropWhile is_space (rev (dropWhile is_space (rev s)))"

definition digit_value :: "char \<Rightarrow> int option" where
  "digit_value c = map_of (zip ''0123456789'' [0..9]) c"

fun parse_digits :: "string \<Rightarrow> int \<Rightarrow> int option" where
  "parse_digits [] acc = None"
| "parse_digits [c] acc =
     (case digit_value c of None \<Rightarrow> None | Some v \<Rightarrow> Some (acc * 10 + v))"
| "parse_digits (c # d # ds) acc =
     (case digit_value c of
        None \<Rightarrow> None
      | Some v \<Rightarrow>
          if d = CHR ''_'' then parse_digits ds (acc * 10 + v)
          else parse_digits (d # ds) (acc * 10 + v))"

definition py_int :: "string \<Rightarrow> py_error + int" where
  "py_int s =
     (case strip s of
        [] \<Rightarrow> Inl ValueError
      | c # cs \<Rightarrow>
          if c = CHR ''-''
          then (case parse_digits cs 0 of None \<Rightarrow> Inl ValueError | Some n \<Rightarrow> Inr (- n))
          else if c = CHR ''+''
          then (case parse_digits cs 0 of None \<Rightarrow> Inl ValueError | Some n \<Rightarrow> Inr n)
          else (case parse_digits (c # cs) 0 of None \<Rightarrow> Inl ValueError | Some n \<Rightarrow> Inr n))"

text \<open>\<open>round(x)\<close>: the nearest integer, the even one of two that are equally near.\<close>

definition py_round :: "rat \<Rightarrow> int" where
  "py_round x =
     (let f = \<lfloor>x\<rfloor>; r = x - of_int f
      in if r < 1 / 2 then f
         else if 1 / 2 < r then f + 1
         else if even f then f else f + 1)"

text \<open>
  The change of the anonymised description:
  \<^verbatim>\<open>pc['date'][:7] + ('am' if int(pc['date'][7:9]) < 12 else 'pm')\<close>.
\<close>

definition anonymise_change :: "change \<Rightarrow> py_error + change" where
  "anonymise_change pc =
     (case py_int (take 2 (drop 7 (date pc))) of
        Inl e \<Rightarrow> Inl e
      | Inr hour \<Rightarrow>
          Inr \<lparr>date = take 7 (date pc) @ (if hour < 12 then ''am'' else ''pm''),
               height_change = height_change pc\<rparr>)"

text \<open>
  The anonymised description of one input line: \<open>'zwiftid': None\<close>, the points as
  the integer \<open>round(points / 50) * 50\<close>, where a \<open>None\<close> divided by 50 raises
  \<open>TypeError\<close>, and the changes.
\<close>

record anon_desc =
  anon_zwiftid :: "int option"
  anon_zwiftpower_points :: int
  anon_suspicious_profile_changes :: "change list"

definition anonymise :: "report \<Rightarrow> py_error + anon_desc" where
  "anonymise desc =
     (case zwiftpower_points desc of
        None \<Rightarrow> Inl TypeError
      | Some points \<Rightarrow>
          (case map_err anonymise_change (suspicious_profile_changes desc) of
             Inl e \<Rightarrow> Inl e
           | Inr changes \<Rightarrow>
               Inr \<lparr>anon_zwiftid = None,
                    anon_zwiftpower_points = py_round (points / 50) * 50,
                    anon_suspicious_profile_changes = changes\<rparr>))"

section \<open>Notions of the specification\<close>

text \<open>
  The difference of one tracked field between two records: the value of the first
  minus the value of the second, where both hold an integer.
\<close>

definition field_diff :: "alias_record \<Rightarrow> alias_record \<Rightarrow> string \<Rightarrow> int option" where
  "field_diff a b f =
     (case (map_of a f, map_of b f) of
        (Some (PInt x), Some (PInt y)) \<Rightarrow> Some (x - y)
      | _ \<Rightarrow> None)"

text \<open>A pair (newer, older) has changed when some tracked field differs.\<close>

definition pair_changed :: "string list \<Rightarrow> alias_record \<times> alias_record \<Rightarrow> bool" where
  "pair_changed fs p = list_ex (\<lambda>f. field_diff (fst p) (snd p) f \<noteq> Some 0) fs"

text \<open>
  The difference mapping of a delta holds exactly the tracked fields that differ, each
  with the value of the newer record (\<open>to\<close>) minus that of the older one (\<open>from\<close>).
\<close>

definition delta_of_pair :: "string list \<Rightarrow> delta \<Rightarrow> bool" where
  "delta_of_pair fs d \<longleftrightarrow>
     deltas d \<noteq> [] \<and> distinct (map fst (deltas d)) \<and>
     (\<forall>f v. map_of (deltas d) f = Some v \<longleftrightarrow>
        f \<in> set fs \<and> v \<noteq> 0 \<and> field_diff (d_to d) (d_from d) f = Some v)"

text \<open>A record whose height is the sentinel \<open>0\<close>.\<close>

definition zero_height :: "alias_record \<Rightarrow> bool" where
  "zero_height a \<longleftrightarrow> map_of a ''height'' = Some (PInt 0)"

text \<open>
  Position \<open>i\<close> lies in the oldest contiguous run of zero heights when every record
  from \<open>i\<close> to the oldest end has height \<open>0\<close>.
\<close>

definition in_zero_run :: "alias_record list \<Rightarrow> nat \<Rightarrow> bool" where
  "in_zero_run xs i \<longleftrightarrow> list_all zero_height (drop i xs)"

text \<open>The anchor: the height of the oldest record whose height is not \<open>0\<close>.\<close>

definition anchor :: "alias_record list \<Rightarrow> pyval option" where
  "anchor xs =
     (case rev (filter (\<lambda>a. \<not> zero_height a) xs) of
        [] \<Rightarrow> None
      | a # _ \<Rightarrow> map_of a ''height'')"

text \<open>
  The record \<open>new\<close> is \<open>old\<close> with the height \<open>h\<close>: the same keys in the same order,
  and the same value under every key but \<open>height\<close>.
\<close>

definition height_replaced :: "pyval \<Rightarrow> alias_record \<Rightarrow> alias_record \<Rightarrow> bool" where
  "height_replaced h old new \<longleftrightarrow>
     map_of new ''height'' = Some h \<and> map fst new = map fst old \<and>
     (\<forall>k. k \<noteq> ''height'' \<longrightarrow> map_of new k = map_of old k)"





section \<open>Example data\<close>

text \<open>The four aliases of the end-to-end scenario, most recent first.\<close>

definition alias_jan15 :: alias_record where
  "alias_jan15 = [(''month'', PStr ''jan''), (''day'', PInt 15), (''hour'', PInt 0),
                  (''minute'', PInt 28), (''height'', PInt 187)]"

definition alias_jan10_0228 :: alias_record where
  "alias_jan10_0228 = [(''month'', PStr ''jan''), (''day'', PInt 10), (''hour'', PInt 2),
                       (''minute'', PInt 28), (''height'', PInt 120)]"

definition alias_jan10_0028 :: alias_record where
  "alias_jan10_0028 = [(''month'', PStr ''jan''), (''day'', PInt 10), (''hour'', PInt 0),
                       (''minute'', PInt 28), (''height'', PInt 120)]"

definition alias_jan01 :: alias_record where
  "alias_jan01 = [(''month'', PStr ''jan''), (''day'', PInt 1), (''hour'', PInt 0),
                  (''minute'', PInt 28), (''height'', PInt 187)]"

definition scenario_aliases :: "alias_record list" where
  "scenario_aliases = [alias_jan15, alias_jan10_0228, alias_jan10_0028, alias_jan01]"

text \<open>The example of the docstring of \<open>backfill_heights\<close>.\<close>

definition backfill_example :: "alias_record list" where
  "backfill_example = map (\<lambda>h. [(''height'', PInt h)]) [10, 9, 0, 10, 0, 0]"



text \<open>A rider whose newer alias has a day of one digit.\<close>

definition alias_jan05 :: alias_record where
  "alias_jan05 = [(''month'', PStr ''jan''), (''day'', PInt 5), (''hour'', PInt 9),
                  (''minute'', PInt 5), (''height'', PInt 180)]"

definition one_digit_profile :: profile where
  "one_digit_profile =
     \<lparr>zwiftid = 1, zwiftpower_points = Some 137, aliases = [alias_jan05, alias_jan01]\<rparr>"


section \<open>Properties of get_deltas\<close>

lemma dict_comp_Cons_Inr:
  assumes "dict_comp l a (f # fs) acc = Inr r"
  shows "\<exists>d. field_diff l a f = Some d \<and>
             dict_comp l a fs (if d \<noteq> 0 then AList.update f d acc else acc) = Inr r"
proof -
  from assms obtain x where x: "getitem l f = Inr x"
    by (cases "getitem l f") auto
  from assms x obtain y where y: "getitem a f = Inr y"
    by (cases "getitem a f") auto
  from assms x y obtain d where d: "py_sub x y = Inr d"
    by (cases "py_sub x y") auto
  from d obtain p q where pq: "x = PInt p" "y = PInt q" "d = p - q"
    by (auto elim: py_sub.elims)
  from x y pq have "field_diff l a f = Some d"
    by (auto simp: field_diff_def getitem_def split: option.splits)
  moreover from assms x y d
  have "dict_comp l a fs (if d \<noteq> 0 then AList.update f d acc else acc) = Inr r"
    by simp
  ultimately show ?thesis by blast
qed

lemma dict_comp_defined:
  "dict_comp l a fs acc = Inr r \<Longrightarrow> f \<in> set fs \<Longrightarrow> field_diff l a f \<noteq> None"
proof (induction fs arbitrary: acc)
  case Nil
  then show ?case by simp
next
  case (Cons g fs)
  from dict_comp_Cons_Inr [OF Cons.prems(1)] obtain d where
    d: "field_diff l a g = Some d"
    and rest: "dict_comp l a fs (if d \<noteq> 0 then AList.update g d acc else acc) = Inr r"
    by blast
  show ?case
  proof (cases "f = g")
    case True
    with d show ?thesis by simp
  next
    case False
    with Cons.prems(2) have "f \<in> set fs" by simp
    with Cons.IH [OF rest] show ?thesis .
  qed
qed

lemma dict_comp_map_of:
  "dict_comp l a fs acc = Inr r \<Longrightarrow>
     map_of r f = (if f \<in> set fs \<and> field_diff l a f \<noteq> Some 0 then field_diff l a f else map_of acc f)"
proof (induction fs arbitrary: acc)
  case Nil
  then show ?case by simp
next
  case (Cons g fs)
  from dict_comp_Cons_Inr [OF Cons.prems(1)] obtain d where
    d: "field_diff l a g = Some d"
    and rest: "dict_comp l a fs (if d \<noteq> 0 then AList.update g d acc else acc) = Inr r"
    by blast
  from Cons.IH [OF rest] d show ?case
    by (auto simp: AList.update_conv')
qed

lemma dict_comp_distinct:
  "dict_comp l a fs acc = Inr r \<Longrightarrow> distinct (map fst acc) \<Longrightarrow> distinct (map fst r)"
proof (induction fs arbitrary: acc)
  case Nil
  then show ?case by simp
next
  case (Cons g fs)
  from dict_comp_Cons_Inr [OF Cons.prems(1)] obtain d where
    rest: "dict_comp l a fs (if d \<noteq> 0 then AList.update g d acc else acc) = Inr r"
    by blast
  from Cons.prems(2) have "distinct (map fst (if d \<noteq> 0 then AList.update g d acc else acc))"
    by (simp add: AList.distinct_update)
  from Cons.IH [OF rest this] show ?case .
qed


lemma dict_comp_nonempty:
  assumes "dict_comp l a fs [] = Inr r"
  shows "r \<noteq> [] \<longleftrightarrow> (\<exists>f\<in>set fs. field_diff l a f \<noteq> Some 0)"
proof
  assume "r \<noteq> []"
  then obtain k v t where "r = (k, v) # t"
    by (cases r) auto
  then have "map_of r k = Some v" by simp
  with dict_comp_map_of [OF assms, of k] show "\<exists>f\<in>set fs. field_diff l a f \<noteq> Some 0"
    by (auto split: if_splits)
next
  assume "\<exists>f\<in>set fs. field_diff l a f \<noteq> Some 0"
  then obtain f where f: "f \<in> set fs" "field_diff l a f \<noteq> Some 0" by blast
  with dict_comp_defined [OF assms f(1)] dict_comp_map_of [OF assms, of f]
  have "map_of r f \<noteq> None" by auto
  then show "r \<noteq> []" by auto
qed

lemma dict_comp_delta_of_pair:
  assumes "dict_comp l a fs [] = Inr r" "r \<noteq> []"
  shows "delta_of_pair fs \<lparr>d_from = a, d_to = l, deltas = r\<rparr>"
proof -
  have "distinct (map fst r)"
    using dict_comp_distinct [OF assms(1)] by simp
  moreover have "map_of r f = Some v \<longleftrightarrow> f \<in> set fs \<and> v \<noteq> 0 \<and> field_diff l a f = Some v"
    for f v
    using dict_comp_map_of [OF assms(1), of f] by auto
  ultimately show ?thesis
    using assms(2) by (simp add: delta_of_pair_def)
qed

lemma get_deltas_loop_Some:
  "get_deltas_loop (Some l) as fs = Inr ds \<Longrightarrow>
     map (\<lambda>d. (d_to d, d_from d)) ds = filter (pair_changed fs) (zip (l # as) as) \<and>
     (\<forall>d\<in>set ds. delta_of_pair fs d)"
proof (induction as arbitrary: l ds)
  case Nil
  then show ?case by simp
next
  case (Cons a as)
  from Cons.prems obtain r where r: "dict_comp l a fs [] = Inr r"
    by (cases "dict_comp l a fs []") auto
  from Cons.prems r obtain out where out: "get_deltas_loop (Some a) as fs = Inr out"
    by (cases "get_deltas_loop (Some a) as fs") auto
  from Cons.prems r out
  have ds: "ds = (if r \<noteq> [] then \<lparr>d_from = a, d_to = l, deltas = r\<rparr> # out else out)"
    by simp
  have ch: "pair_changed fs (l, a) \<longleftrightarrow> r \<noteq> []"
    using dict_comp_nonempty [OF r] by (simp add: pair_changed_def list_ex_iff)
  from Cons.IH [OF out] ds ch dict_comp_delta_of_pair [OF r]
  show ?case by auto
qed

lemma get_deltas_Inr:
  assumes "get_deltas as fs = Inr ds"
  shows "map (\<lambda>d. (d_to d, d_from d)) ds = filter (pair_changed fs) (zip as (tl as))"
    and "\<forall>d\<in>set ds. delta_of_pair fs d"
proof -
  show "map (\<lambda>d. (d_to d, d_from d)) ds = filter (pair_changed fs) (zip as (tl as))"
  proof (cases as)
    case Nil
    with assms show ?thesis by (simp add: get_deltas_def)
  next
    case (Cons a as)
    with assms have "get_deltas_loop (Some a) as fs = Inr ds"
      by (simp add: get_deltas_def)
    from get_deltas_loop_Some [OF this] Cons show ?thesis by simp
  qed
  show "\<forall>d\<in>set ds. delta_of_pair fs d"
  proof (cases as)
    case Nil
    with assms show ?thesis by (simp add: get_deltas_def)
  next
    case (Cons a as)
    with assms have "get_deltas_loop (Some a) as fs = Inr ds"
      by (simp add: get_deltas_def)
    from get_deltas_loop_Some [OF this] show ?thesis by simp
  qed
qed



lemma get_deltas_length:
  assumes "get_deltas as fs = Inr ds"
  shows "length ds \<le> length as - 1"
proof -
  have "length ds = length (map (\<lambda>d. (d_to d, d_from d)) ds)" by simp
  also have "\<dots> = length (filter (pair_changed fs) (zip as (tl as)))"
    using get_deltas_Inr(1) [OF assms] by simp
  also have "\<dots> \<le> length (zip as (tl as))" by (rule length_filter_le)
  also have "\<dots> = length as - 1" by simp
  finally show ?thesis .
qed

section \<open>Properties of backfill_heights\<close>

lemma scan_decomposed:
  assumes "list_all zero_height tw" "map_of a ''height'' = Some h" "h \<noteq> PInt 0"
  shows "first_nonzero_height (tw @ a # rest) = Inr (Some h)"
    and "takewhile_zero (tw @ a # rest) = Inr tw"
    and "dropwhile_zero (tw @ a # rest) = Inr (a # rest)"
  using assms by (induction tw) (simp_all add: getitem_def zero_height_def)

lemma scan_all_zero:
  assumes "list_all zero_height xs"
  shows "first_nonzero_height xs = Inr None"
  using assms by (induction xs) (simp_all add: getitem_def zero_height_def)

lemma first_nonzero_height_Some:
  "first_nonzero_height xs = Inr (Some h) \<Longrightarrow>
     \<exists>tw a rest. xs = tw @ a # rest \<and> list_all zero_height tw \<and>
       map_of a ''height'' = Some h \<and> h \<noteq> PInt 0"
proof (induction xs)
  case Nil
  then show ?case by simp
next
  case (Cons b xs)
  from Cons.prems obtain v where v: "map_of b ''height'' = Some v"
    by (cases "map_of b ''height''") (auto simp: getitem_def)
  show ?case
  proof (cases "v = PInt 0")
    case True
    with Cons.prems v have "first_nonzero_height xs = Inr (Some h)"
      by (simp add: getitem_def)
    from Cons.IH [OF this] obtain tw a rest where
      "xs = tw @ a # rest" "list_all zero_height tw" "map_of a ''height'' = Some h" "h \<noteq> PInt 0"
      by blast
    with True v have "b # xs = (b # tw) @ a # rest \<and> list_all zero_height (b # tw) \<and>
        map_of a ''height'' = Some h \<and> h \<noteq> PInt 0"
      by (simp add: zero_height_def)
    then show ?thesis by blast
  next
    case False
    with Cons.prems v have "h = v" by (simp add: getitem_def)
    with False v have "b # xs = [] @ b # xs \<and> list_all zero_height [] \<and>
        map_of b ''height'' = Some h \<and> h \<noteq> PInt 0"
      by simp
    then show ?thesis by blast
  qed
qed

lemma first_nonzero_height_None:
  "first_nonzero_height xs = Inr None \<Longrightarrow> list_all zero_height xs"
proof (induction xs)
  case Nil
  then show ?case by simp
next
  case (Cons b xs)
  from Cons.prems obtain v where v: "map_of b ''height'' = Some v"
    by (cases "map_of b ''height''") (auto simp: getitem_def)
  from Cons.prems v have z: "v = PInt 0"
    by (auto simp: getitem_def split: if_splits)
  with Cons.prems v have "first_nonzero_height xs = Inr None"
    by (simp add: getitem_def)
  with Cons.IH v z show ?case by (simp add: zero_height_def)
qed

text \<open>The two shapes of a successful run.\<close>

lemma backfill_heights_all_zero:
  "list_all zero_height xs \<Longrightarrow> backfill_heights xs = Inr xs"
proof -
  assume "list_all zero_height xs"
  then have "list_all zero_height (rev xs)" by (simp add: list_all_iff)
  from scan_all_zero [OF this] show ?thesis by (simp add: backfill_heights_def)
qed

lemma backfill_heights_anchor:
  assumes "list_all zero_height run" "map_of a ''height'' = Some h" "h \<noteq> PInt 0"
  shows "backfill_heights (pre @ a # run) =
           Inr (pre @ a # map (AList.update ''height'' h) run)"
proof -
  have r: "rev (pre @ a # run) = rev run @ a # rev pre" by simp
  have z: "list_all zero_height (rev run)" using assms(1) by (simp add: list_all_iff)
  show ?thesis
    unfolding backfill_heights_def r
    by (simp add: scan_decomposed [OF z assms(2,3)] rev_map)
qed

lemma backfill_heights_cases:
  assumes "backfill_heights xs = Inr ys"
  shows "(list_all zero_height xs \<and> ys = xs) \<or>
         (\<exists>pre a run h. xs = pre @ a # run \<and> list_all zero_height run \<and>
            map_of a ''height'' = Some h \<and> h \<noteq> PInt 0 \<and>
            ys = pre @ a # map (AList.update ''height'' h) run)"
proof -
  from assms obtain r where r: "first_nonzero_height (rev xs) = Inr r"
    by (cases "first_nonzero_height (rev xs)") (auto simp: backfill_heights_def)
  show ?thesis
  proof (cases r)
    case None
    with r first_nonzero_height_None [of "rev xs"] have z: "list_all zero_height xs"
      by simp
    with assms backfill_heights_all_zero [OF z] show ?thesis by simp
  next
    case (Some h)
    with r first_nonzero_height_Some obtain tw a rest where
      d: "rev xs = tw @ a # rest" "list_all zero_height tw"
         "map_of a ''height'' = Some h" "h \<noteq> PInt 0"
      by blast
    from d(1) have xs: "xs = rev rest @ a # rev tw"
      by (metis rev_rev_ident rev_append rev.simps(2) append_Cons append_Nil append_assoc)
    from d(2) have z: "list_all zero_height (rev tw)" by (simp add: list_all_iff)
    from backfill_heights_anchor [OF z d(3,4), of "rev rest"] assms xs
    have "ys = rev rest @ a # map (AList.update ''height'' h) (rev tw)" by simp
    with xs z d(3,4) show ?thesis by blast
  qed
qed

lemma backfill_heights_twice:
  assumes "backfill_heights xs = Inr ys"
  shows "backfill_heights ys = Inr ys"
  using backfill_heights_cases [OF assms]
proof (elim disjE exE conjE)
  assume "list_all zero_height xs" "ys = xs"
  then show ?thesis by (simp add: backfill_heights_all_zero)
next
  fix pre a run h
  assume xs: "xs = pre @ a # run" and z: "list_all zero_height run"
    and a: "map_of a ''height'' = Some h" and h: "h \<noteq> PInt 0"
    and ys: "ys = pre @ a # map (AList.update ''height'' h) run"
  show ?thesis
  proof (cases run rule: rev_cases)
    case Nil
    with ys have "ys = pre @ a # []" by simp
    with backfill_heights_anchor [OF _ a h, of "[]" pre] show ?thesis by simp
  next
    case (snoc run' b)
    let ?b = "AList.update ''height'' h b"
    have ys': "ys = (pre @ a # map (AList.update ''height'' h) run') @ ?b # []"
      using ys snoc by simp
    have hb: "map_of ?b ''height'' = Some h" by (simp add: AList.update_conv')
    have "AList.update ''height'' h ?b = ?b" by simp
    from backfill_heights_anchor [OF _ hb h, of "[]" "pre @ a # map (AList.update ''height'' h) run'"] ys'
    show ?thesis by simp
  qed
qed

lemma height_replaced_update:
  assumes "zero_height a"
  shows "height_replaced h a (AList.update ''height'' h a)"
proof -
  from assms have "''height'' \<in> fst ` set a"
    by (auto simp: zero_height_def dest: map_of_SomeD intro: rev_image_eqI)
  then have "map fst (AList.update ''height'' h a) = map fst a"
    by (simp add: AList.update_keys)
  then show ?thesis
    by (simp add: height_replaced_def AList.update_conv')
qed

lemma anchor_shape:
  assumes "list_all zero_height run" "map_of a ''height'' = Some h" "h \<noteq> PInt 0"
  shows "anchor (pre @ a # run) = Some h"
    and "in_zero_run (pre @ a # run) i \<longleftrightarrow> length pre < i"
proof -
  from assms(2,3) have nz: "\<not> zero_height a" by (simp add: zero_height_def)
  from assms(1) have "filter (\<lambda>a. \<not> zero_height a) run = []"
    by (simp add: list_all_iff filter_empty_conv)
  with nz assms(2) show "anchor (pre @ a # run) = Some h"
    by (simp add: anchor_def)
  show "in_zero_run (pre @ a # run) i \<longleftrightarrow> length pre < i"
  proof (cases "length pre < i")
    case True
    then obtain j where j: "i - length pre = Suc j" by (cases "i - length pre") auto
    with True have "drop i (pre @ a # run) = drop j run" by simp
    moreover from assms(1) have "list_all zero_height (drop j run)"
      by (auto simp: list_all_iff dest: in_set_dropD)
    ultimately show ?thesis using True by (simp add: in_zero_run_def)
  next
    case False
    then have "drop i (pre @ a # run) = drop i pre @ a # run" by simp
    with nz False show ?thesis by (simp add: in_zero_run_def)
  qed
qed

lemma backfill_heights_indexwise:
  assumes "backfill_heights xs = Inr ys"
  shows "length ys = length xs"
    and "list_all zero_height xs \<Longrightarrow> ys = xs"
    and "i < length xs \<Longrightarrow> \<not> in_zero_run xs i \<Longrightarrow> ys ! i = xs ! i"
    and "\<not> list_all zero_height xs \<Longrightarrow>
           \<exists>h. anchor xs = Some h \<and> h \<noteq> PInt 0 \<and>
             (\<forall>i<length xs. in_zero_run xs i \<longrightarrow> height_replaced h (xs ! i) (ys ! i))"
proof -
  note c = backfill_heights_cases [OF assms]
  show "length ys = length xs" using c by auto
  show "list_all zero_height xs \<Longrightarrow> ys = xs"
    using assms by (simp add: backfill_heights_all_zero)
  show "ys ! i = xs ! i" if i: "i < length xs" "\<not> in_zero_run xs i"
    using c
  proof (elim disjE exE conjE)
    assume "ys = xs"
    then show ?thesis by simp
  next
    fix pre a run h
    assume s: "xs = pre @ a # run" "list_all zero_height run"
      "map_of a ''height'' = Some h" "h \<noteq> PInt 0"
      "ys = pre @ a # map (AList.update ''height'' h) run"
    from i(2) anchor_shape(2) [OF s(2,3,4), of pre i] s(1) have "i \<le> length pre" by simp
    then show ?thesis
      using s(1,5) by (cases "i = length pre") (simp_all add: nth_append)
  qed
  show "\<exists>h. anchor xs = Some h \<and> h \<noteq> PInt 0 \<and>
          (\<forall>i<length xs. in_zero_run xs i \<longrightarrow> height_replaced h (xs ! i) (ys ! i))"
    if nz: "\<not> list_all zero_height xs"
    using c
  proof (elim disjE exE conjE)
    assume "list_all zero_height xs"
    with nz show ?thesis by simp
  next
    fix pre a run h
    assume s: "xs = pre @ a # run" "list_all zero_height run"
      "map_of a ''height'' = Some h" "h \<noteq> PInt 0"
      "ys = pre @ a # map (AList.update ''height'' h) run"
    have "height_replaced h (xs ! i) (ys ! i)" if "i < length xs" "in_zero_run xs i" for i
    proof -
      from that(2) anchor_shape(2) [OF s(2,3,4), of pre i] s(1) have gt: "length pre < i" by simp
      then obtain j where j: "i - length pre = Suc j" by (cases "i - length pre") auto
      with that(1) s(1) gt have jl: "j < length run" by simp
      from gt j have "xs ! i = run ! j" "ys ! i = map (AList.update ''height'' h) run ! j"
        using s(1,5) by (simp_all add: nth_append)
      moreover from s(2) jl have "zero_height (run ! j)" by (simp add: list_all_length)
      ultimately show ?thesis using jl by (simp add: height_replaced_update)
    qed
    with anchor_shape(1) [OF s(2,3,4), of pre] s(1,4) show ?thesis by blast
  qed
qed

lemma backfill_heights_total:
  assumes "\<forall>a\<in>set xs. map_of a ''height'' \<noteq> None"
  shows "\<exists>ys. backfill_heights xs = Inr ys"
proof (cases "list_all zero_height xs")
  case True
  then show ?thesis by (simp add: backfill_heights_all_zero)
next
  case False
  then have "\<exists>a\<in>set xs. \<not> zero_height a" by (simp add: list_all_iff)
  from split_list_last_prop [OF this] obtain pre a run where
    d: "xs = pre @ a # run" "\<not> zero_height a" "\<forall>b\<in>set run. \<not> \<not> zero_height b"
    by blast
  from d(1) have "a \<in> set xs" by simp
  with assms obtain h where h: "map_of a ''height'' = Some h" by auto
  with d(2) have nz: "h \<noteq> PInt 0" by (auto simp: zero_height_def)
  from d(3) have z: "list_all zero_height run" by (simp add: list_all_iff)
  from backfill_heights_anchor [OF z h nz, of pre] d(1) show ?thesis by simp
qed

section \<open>Evaluation of the report of one rider\<close>

lemma format_date_scenario:
  "format_date alias_jan15 = Inr ''Jan 15 00:28''"
  "format_date alias_jan10_0228 = Inr ''Jan 10 02:28''"
  "format_date alias_jan10_0028 = Inr ''Jan 10 00:28''"
  "format_date alias_jan01 = Inr ''Jan 1 00:28''"
  by (simp_all add: format_date_def getitem_def alias_jan15_def alias_jan10_0228_def
      alias_jan10_0028_def alias_jan01_def capitalize_def to_upper_def to_lower_def
      lower_letters_def upper_letters_def format_plain_def format_02_def str_int_def
      str_nat.simps digit_char_def)

lemma backfill_heights_scenario:
  "backfill_heights scenario_aliases = Inr scenario_aliases"
  by (simp add: backfill_heights_def scenario_aliases_def getitem_def alias_jan15_def
      alias_jan10_0228_def alias_jan10_0028_def alias_jan01_def)

lemma get_deltas_scenario:
  "get_deltas scenario_aliases [''height''] =
     Inr [\<lparr>d_from = alias_jan10_0228, d_to = alias_jan15, deltas = [(''height'', 67)]\<rparr>,
          \<lparr>d_from = alias_jan01, d_to = alias_jan10_0028, deltas = [(''height'', - 67)]\<rparr>]"
  by (simp add: get_deltas_def scenario_aliases_def alias_jan15_def alias_jan10_0228_def
      alias_jan10_0028_def alias_jan01_def getitem_def)

lemma get_suspicious_deltas_scenario:
  "get_suspicious_deltas scenario_aliases =
     Inr [\<lparr>d_from = alias_jan10_0228, d_to = alias_jan15, deltas = [(''height'', 67)]\<rparr>,
          \<lparr>d_from = alias_jan01, d_to = alias_jan10_0028, deltas = [(''height'', - 67)]\<rparr>]"
  by (simp add: get_suspicious_deltas_def get_deltas_scenario filter_deltas_def retained_def
      height_policy_def)

lemma describe_scenario:
  "describe_suspicious_profile \<lparr>zwiftid = z, zwiftpower_points = p, aliases = scenario_aliases\<rparr> =
     Inr (Some \<lparr>zwiftid = z, zwiftpower_points = p,
                suspicious_profile_changes =
                  [\<lparr>date = ''Jan 15 00:28'', height_change = 67\<rparr>,
                   \<lparr>date = ''Jan 10 00:28'', height_change = - 67\<rparr>]\<rparr>)"
  by (simp add: describe_suspicious_profile_def backfill_heights_scenario
      get_suspicious_deltas_scenario describe_suspicious_delta_def format_date_scenario
      getitem_def)


section \<open>Properties of filter_deltas\<close>

lemma retained_iff:
  "retained retain kv \<longleftrightarrow> (\<forall>p. retain (fst kv) = Some p \<longrightarrow> p (snd kv))"
  by (simp add: retained_def split: option.splits)

lemma filter_deltas_map_filter:
  "filter_deltas retain ds =
     map (\<lambda>d. d\<lparr>deltas := filter (retained retain) (deltas d)\<rparr>)
       (filter (\<lambda>d. \<exists>kv\<in>set (deltas d). retained retain kv) ds)"
  by (simp add: filter_deltas_def filter_map comp_def filter_empty_conv)

lemma filter_deltas_nonempty:
  "d \<in> set (filter_deltas retain ds) \<Longrightarrow> deltas d \<noteq> []"
  by (auto simp: filter_deltas_def)

section \<open>Properties of the sorted output\<close>







section \<open>Properties of numeric_month\<close>

lemma months_table:
  "months = [(''jan'', 1), (''feb'', 2), (''mar'', 3), (''apr'', 4), (''may'', 5), (''jun'', 6),
             (''jul'', 7), (''aug'', 8), (''sep'', 9), (''oct'', 10), (''nov'', 11), (''dec'', 12)]"
  by (simp add: months_def month_words_def upto_rec1)

lemma numeric_month_unknown:
  "s \<notin> set month_words \<Longrightarrow> numeric_month (PStr s) = Inl KeyError"
proof -
  assume "s \<notin> set month_words"
  then have "s \<notin> fst ` set months"
    by (simp add: months_table) (simp add: month_words_def)
  then have "map_of months s = None" by (simp add: map_of_eq_None_iff)
  then show ?thesis by (simp add: numeric_month_def getitem_def)
qed

lemma map_err_Inr:
  "map_err f xs = Inr ys \<Longrightarrow> length ys = length xs \<and> (\<forall>i<length xs. f (xs ! i) = Inr (ys ! i))"
proof (induction xs arbitrary: ys)
  case Nil
  then show ?case by simp
next
  case (Cons x xs)
  from Cons.prems obtain y where y: "f x = Inr y" by (cases "f x") auto
  from Cons.prems y obtain zs where zs: "map_err f xs = Inr zs"
    by (cases "map_err f xs") auto
  from Cons.prems y zs have "ys = y # zs" by simp
  with Cons.IH [OF zs] y show ?case by (auto simp: nth_Cons split: nat.splits)
qed

lemma numeric_months_Inr:
  assumes "numeric_months as = Inr bs" "i < length as"
  shows "\<exists>s n. map_of (as ! i) ''month'' = Some (PStr s) \<and> map_of months s = Some n \<and>
           bs ! i = AList.update ''month'' (PInt n) (as ! i)"
proof -
  from map_err_Inr [OF assms(1) [unfolded numeric_months_def]] assms(2)
  have "(case getitem (as ! i) ''month'' of Inl e \<Rightarrow> Inl e
         | Inr m \<Rightarrow> (case numeric_month m of Inl e \<Rightarrow> Inl e
             | Inr n \<Rightarrow> Inr (AList.update ''month'' (PInt n) (as ! i)))) = Inr (bs ! i)"
    by simp
  then show ?thesis
    by (auto simp: getitem_def numeric_month_def split: option.splits sum.splits pyval.splits)
qed

section \<open>Properties of the anonymiser\<close>




lemma str_nat_one_digit:
  "n < 10 \<Longrightarrow> str_nat n = [digit_char n]"
  by (simp add: str_nat.simps)

lemma str_nat_two_digits:
  assumes "10 \<le> n" "n < 100"
  shows "str_nat n = [digit_char (n div 10), digit_char (n mod 10)]"
proof -
  from assms have "n div 10 < 10" by simp
  then have "str_nat (n div 10) = [digit_char (n div 10)]" by (rule str_nat_one_digit)
  with assms(1) show ?thesis by (simp add: str_nat.simps [of n])
qed

lemma format_02_two_digits:
  assumes "0 \<le> h" "h \<le> 99"
  shows "format_02 (PInt h) = [digit_char (nat h div 10), digit_char (nat h mod 10)]"
proof (cases "nat h < 10")
  case True
  then have "nat h div 10 = 0" "nat h mod 10 = nat h" by simp_all
  moreover have "digit_char 0 = CHR ''0''" by (simp add: digit_char_def)
  ultimately show ?thesis
    using assms True by (simp add: format_02_def str_nat_one_digit)
next
  case False
  with assms have "10 \<le> nat h" "nat h < 100" by simp_all
  from str_nat_two_digits [OF this] assms show ?thesis
    by (simp add: format_02_def)
qed



lemma py_int_colon:
  "py_int [c, CHR '':''] = Inl ValueError"
proof -
  have ns: "\<not> is_space (CHR '':'')" by (simp add: is_space_def)
  have dv: "digit_value (CHR '':'') = None" by (simp add: digit_value_def upto_rec1)
  show ?thesis
  proof (cases "is_space c")
    case True
    with ns dv show ?thesis by (simp add: py_int_def strip_def)
  next
    case False
    with ns dv show ?thesis
      by (simp add: py_int_def strip_def split: option.splits)
  qed
qed



lemma map_err_Inl:
  "x \<in> set xs \<Longrightarrow> f x = Inl e \<Longrightarrow> \<exists>e'. map_err f xs = Inl e'"
proof (induction xs)
  case Nil
  then show ?case by simp
next
  case (Cons y ys)
  then show ?case
    by (cases "f y"; cases "map_err f ys") auto
qed

lemma map_err_Inl_same:
  "map_err f xs = Inl e \<Longrightarrow> \<exists>x\<in>set xs. f x = Inl e"
proof (induction xs)
  case Nil
  then show ?case by simp
next
  case (Cons y ys)
  then show ?case
    by (cases "f y"; cases "map_err f ys") auto
qed

lemma py_int_error:
  "py_int s = Inl e \<Longrightarrow> e = ValueError"
  by (auto simp: py_int_def split: list.splits if_splits option.splits)

lemma anonymise_change_error:
  "anonymise_change pc = Inl e \<Longrightarrow> e = ValueError"
  by (cases "py_int (take 2 (drop 7 (date pc)))")
    (auto simp: anonymise_change_def dest: py_int_error)



lemma capitalize_length:
  "length (capitalize s) = length s"
  by (cases s) (simp_all add: capitalize_def)

lemma format_date_single_digit_day:
  assumes "map_of o' ''month'' = Some (PStr m)" "length m = 3"
    and "map_of o' ''day'' = Some (PInt d)" "0 \<le> d" "d \<le> 9"
    and "map_of o' ''hour'' = Some (PInt h)" "0 \<le> h" "h \<le> 99"
    and "map_of o' ''minute'' = Some mi"
  shows "\<exists>s. format_date o' = Inr s \<and>
           take 2 (drop 7 s) = [digit_char (nat h mod 10), CHR '':'']"
proof -
  let ?s = "capitalize m @ '' '' @ format_plain (PInt d) @ '' '' @
            format_02 (PInt h) @ '':'' @ format_02 mi"
  from assms have fd: "format_date o' = Inr ?s"
    by (simp add: format_date_def getitem_def)
  from assms(4,5) have "format_plain (PInt d) = [digit_char (nat d)]"
    by (simp add: format_plain_def str_int_def str_nat_one_digit)
  with format_02_two_digits [OF assms(7,8)] capitalize_length [of m] assms(2)
  have "take 2 (drop 7 ?s) = [digit_char (nat h mod 10), CHR '':'']"
    by simp
  with fd show ?thesis by blast
qed

section \<open>The claims\<close>

subsection \<open>The delta detector\<close>




text \<open>
  C9, as the code has it. For every alias sequence of length \<open>n\<close> and every list of
  tracked fields, the detector produces no delta when \<open>n = 0\<close> and at most \<open>n - 1\<close>
  deltas when \<open>n \<ge> 1\<close>.
\<close>

theorem get_deltas_count_bound:
  "get_deltas as fs = Inr ds \<Longrightarrow>
     (as = [] \<longrightarrow> ds = []) \<and> (as \<noteq> [] \<longrightarrow> int (length ds) \<le> int (length as) - 1)"
  using get_deltas_length [of as fs ds] by (cases as) auto

theorem get_deltas_count_bound_witness:
  "get_deltas scenario_aliases [''height''] =
     Inr [\<lparr>d_from = alias_jan10_0228, d_to = alias_jan15, deltas = [(''height'', 67)]\<rparr>,
          \<lparr>d_from = alias_jan01, d_to = alias_jan10_0028, deltas = [(''height'', - 67)]\<rparr>] \<and>
   scenario_aliases \<noteq> [] \<and>
   int (length [\<lparr>d_from = alias_jan10_0228, d_to = alias_jan15, deltas = [(''height'', 67)]\<rparr>,
          \<lparr>d_from = alias_jan01, d_to = alias_jan10_0028, deltas = [(''height'', - 67)]\<rparr>])
     \<le> int (length scenario_aliases) - 1"
proof -
  have run: "get_deltas scenario_aliases [''height''] =
     Inr [\<lparr>d_from = alias_jan10_0228, d_to = alias_jan15, deltas = [(''height'', 67)]\<rparr>,
          \<lparr>d_from = alias_jan01, d_to = alias_jan10_0028, deltas = [(''height'', - 67)]\<rparr>]"
    by (simp add: get_deltas_def scenario_aliases_def alias_jan15_def alias_jan10_0228_def
        alias_jan10_0028_def alias_jan01_def getitem_def)
  have ne: "scenario_aliases \<noteq> []" by (simp add: scenario_aliases_def)
  from get_deltas_count_bound [OF run] ne run show ?thesis by blast
qed

text \<open>
  C9 as stated fails on the empty sequence: its length is 0, the detector produces 0
  deltas, and 0 is not at most \<open>0 - 1\<close>.
\<close>

theorem get_deltas_count_bound_counterexample:
  "get_deltas [] [''height''] = Inr [] \<and>
   \<not> int (length ([] :: delta list)) \<le> int (length ([] :: alias_record list)) - 1"
  by (simp add: get_deltas_def)

subsection \<open>Height backfill\<close>

text \<open>
  C3. The empty sequence maps to the empty sequence. When every alias has a height,
  backfill returns. Whenever it returns for an alias sequence (most recent first), the
  result has the length of the input; every entry outside the oldest contiguous run of
  zero heights is unchanged; when no entry has a height other than 0, the result is
  the input; otherwise there is an anchor, the oldest height that is not 0, and every
  entry inside the run has the anchor as its height, with its keys and all its other
  values unchanged.
\<close>

theorem backfill_heights_spec:
  "backfill_heights [] = Inr [] \<and>
   ((\<forall>a\<in>set xs. map_of a ''height'' \<noteq> None) \<longrightarrow> (\<exists>ys. backfill_heights xs = Inr ys)) \<and>
   (\<forall>ys. backfill_heights xs = Inr ys \<longrightarrow>
      length ys = length xs \<and>
      (\<forall>i<length xs. \<not> in_zero_run xs i \<longrightarrow> ys ! i = xs ! i) \<and>
      (list_all zero_height xs \<longrightarrow> ys = xs) \<and>
      (\<not> list_all zero_height xs \<longrightarrow>
         (\<exists>h. anchor xs = Some h \<and> h \<noteq> PInt 0 \<and>
            (\<forall>i<length xs. in_zero_run xs i \<longrightarrow> height_replaced h (xs ! i) (ys ! i)))))"
proof (intro conjI allI impI)
  show "backfill_heights [] = Inr []" by (simp add: backfill_heights_def)
next
  assume "\<forall>a\<in>set xs. map_of a ''height'' \<noteq> None"
  then show "\<exists>ys. backfill_heights xs = Inr ys" by (rule backfill_heights_total)
next
  fix ys assume "backfill_heights xs = Inr ys"
  then show "length ys = length xs" by (rule backfill_heights_indexwise(1))
next
  fix ys i assume "backfill_heights xs = Inr ys" "i < length xs" "\<not> in_zero_run xs i"
  then show "ys ! i = xs ! i" by (rule backfill_heights_indexwise(3))
next
  fix ys assume "backfill_heights xs = Inr ys" "list_all zero_height xs"
  then show "ys = xs" by (rule backfill_heights_indexwise(2))
next
  fix ys assume "backfill_heights xs = Inr ys" "\<not> list_all zero_height xs"
  then show "\<exists>h. anchor xs = Some h \<and> h \<noteq> PInt 0 \<and>
      (\<forall>i<length xs. in_zero_run xs i \<longrightarrow> height_replaced h (xs ! i) (ys ! i))"
    by (rule backfill_heights_indexwise(4))
qed

theorem backfill_heights_spec_witness:
  "backfill_heights backfill_example =
     Inr (map (\<lambda>h. [(''height'', PInt h)]) [10, 9, 0, 10, 10, 10]) \<and>
   length (map (\<lambda>h. [(''height'', PInt h)]) [10, 9, 0, 10, 10, 10 :: int]) =
     length backfill_example \<and>
   \<not> list_all zero_height backfill_example \<and>
   anchor backfill_example = Some (PInt 10) \<and>
   \<not> in_zero_run backfill_example 2 \<and> in_zero_run backfill_example 4"
proof -
  have run: "backfill_heights backfill_example =
     Inr (map (\<lambda>h. [(''height'', PInt h)]) [10, 9, 0, 10, 10, 10])"
    by (simp add: backfill_heights_def backfill_example_def getitem_def)
  have "\<not> list_all zero_height backfill_example"
    "anchor backfill_example = Some (PInt 10)"
    "\<not> in_zero_run backfill_example 2" "in_zero_run backfill_example 4"
    by (simp_all add: backfill_example_def zero_height_def anchor_def in_zero_run_def)
  with run backfill_heights_spec [of backfill_example] show ?thesis by auto
qed

text \<open>
  C7. Height backfill is idempotent: whenever backfill returns a sequence, backfill of
  that sequence returns the same sequence; and backfill returns for every alias
  sequence in which every alias has a height.
\<close>

theorem backfill_heights_idempotent:
  "((\<forall>a\<in>set xs. map_of a ''height'' \<noteq> None) \<longrightarrow> (\<exists>ys. backfill_heights xs = Inr ys)) \<and>
   (\<forall>ys. backfill_heights xs = Inr ys \<longrightarrow> backfill_heights ys = Inr ys)"
  using backfill_heights_total [of xs] backfill_heights_twice [of xs] by blast

theorem backfill_heights_idempotent_witness:
  "backfill_heights backfill_example =
     Inr (map (\<lambda>h. [(''height'', PInt h)]) [10, 9, 0, 10, 10, 10]) \<and>
   backfill_heights (map (\<lambda>h. [(''height'', PInt h)]) [10, 9, 0, 10, 10, 10]) =
     Inr (map (\<lambda>h. [(''height'', PInt h)]) [10, 9, 0, 10, 10, 10])"
proof -
  have run: "backfill_heights backfill_example =
     Inr (map (\<lambda>h. [(''height'', PInt h)]) [10, 9, 0, 10, 10, 10])"
    by (simp add: backfill_heights_def backfill_example_def getitem_def)
  from backfill_heights_idempotent [of backfill_example] run show ?thesis by simp
qed

subsection \<open>The report of one rider\<close>

text \<open>
  C2, as the code has it. For the four aliases of the scenario (most recent first) the
  pipeline of backfill, delta detection on the height, the filter with the threshold
  \<open>|delta| \<ge> 5\<close> and the formatting of the report produces exactly two suspicious
  changes, in order: \<open>{date: "Jan 15 00:28", height_change: 67}\<close> and then
  \<open>{date: "Jan 10 00:28", height_change: -67}\<close>. The date of a change is the date of
  the newer record of its pair; the pair with no change of height contributes nothing.
\<close>

theorem describe_suspicious_profile_scenario:
  "describe_suspicious_profile
     \<lparr>zwiftid = z, zwiftpower_points = p, aliases = scenario_aliases\<rparr> =
   Inr (Some \<lparr>zwiftid = z, zwiftpower_points = p,
              suspicious_profile_changes =
                [\<lparr>date = ''Jan 15 00:28'', height_change = 67\<rparr>,
                 \<lparr>date = ''Jan 10 00:28'', height_change = - 67\<rparr>]\<rparr>)"
  by (rule describe_scenario)

text \<open>
  C2 as stated fails: the second change is not dated \<open>"Jan 10 02:28"\<close>. Its pair is the
  third and the fourth alias, and the newer of the two is the one of Jan 10 at 00:28.
\<close>

theorem describe_suspicious_profile_scenario_counterexample:
  "describe_suspicious_profile
     \<lparr>zwiftid = 1, zwiftpower_points = Some 137, aliases = scenario_aliases\<rparr> \<noteq>
   Inr (Some \<lparr>zwiftid = 1, zwiftpower_points = Some 137,
              suspicious_profile_changes =
                [\<lparr>date = ''Jan 15 00:28'', height_change = 67\<rparr>,
                 \<lparr>date = ''Jan 10 02:28'', height_change = - 67\<rparr>]\<rparr>)"
  by (simp add: describe_scenario)

subsection \<open>The suspicion filter\<close>

text \<open>
  C5. For every sequence of deltas and every mapping from field names to predicates,
  the filter keeps, in their order, the deltas in which some field passes, where a
  field passes when the mapping has no predicate for it or its predicate holds of its
  value; it keeps within each of them exactly the fields that pass; and no delta of
  its result has an empty difference mapping. Under the height policy a height delta
  of 4 is dropped, and one of 5 or of -5 is kept.
\<close>

theorem filter_deltas_spec:
  "filter_deltas retain ds =
     map (\<lambda>d. d\<lparr>deltas := filter (\<lambda>kv. \<forall>p. retain (fst kv) = Some p \<longrightarrow> p (snd kv)) (deltas d)\<rparr>)
       (filter (\<lambda>d. \<exists>kv\<in>set (deltas d). \<forall>p. retain (fst kv) = Some p \<longrightarrow> p (snd kv)) ds) \<and>
   (\<forall>d\<in>set (filter_deltas retain ds). deltas d \<noteq> []) \<and>
   filter_deltas height_policy [\<lparr>d_from = a, d_to = b, deltas = [(''height'', 4)]\<rparr>] = [] \<and>
   filter_deltas height_policy [\<lparr>d_from = a, d_to = b, deltas = [(''height'', 5)]\<rparr>] =
     [\<lparr>d_from = a, d_to = b, deltas = [(''height'', 5)]\<rparr>] \<and>
   filter_deltas height_policy [\<lparr>d_from = a, d_to = b, deltas = [(''height'', - 5)]\<rparr>] =
     [\<lparr>d_from = a, d_to = b, deltas = [(''height'', - 5)]\<rparr>]"
proof (intro conjI ballI)
  have "retained retain = (\<lambda>kv. \<forall>p. retain (fst kv) = Some p \<longrightarrow> p (snd kv))"
    by (rule ext) (rule retained_iff)
  with filter_deltas_map_filter [of retain ds]
  show "filter_deltas retain ds =
     map (\<lambda>d. d\<lparr>deltas := filter (\<lambda>kv. \<forall>p. retain (fst kv) = Some p \<longrightarrow> p (snd kv)) (deltas d)\<rparr>)
       (filter (\<lambda>d. \<exists>kv\<in>set (deltas d). \<forall>p. retain (fst kv) = Some p \<longrightarrow> p (snd kv)) ds)"
    by simp
next
  fix d assume "d \<in> set (filter_deltas retain ds)"
  then show "deltas d \<noteq> []" by (rule filter_deltas_nonempty)
qed (simp_all add: filter_deltas_def retained_def height_policy_def)

theorem filter_deltas_spec_witness:
  "filter_deltas [''foo'' \<mapsto> (\<lambda>x. \<bar>x\<bar> > 3)]
     [\<lparr>d_from = [], d_to = [], deltas = [(''foo'', 2), (''bar'', 1)]\<rparr>,
      \<lparr>d_from = [], d_to = [], deltas = [(''foo'', 5)]\<rparr>,
      \<lparr>d_from = [], d_to = [], deltas = [(''foo'', 1)]\<rparr>] =
   [\<lparr>d_from = [], d_to = [], deltas = [(''bar'', 1)]\<rparr>,
    \<lparr>d_from = [], d_to = [], deltas = [(''foo'', 5)]\<rparr>] \<and>
   deltas \<lparr>d_from = [], d_to = [], deltas = [(''bar'', 1 :: int)]\<rparr> \<noteq> [] \<and>
   deltas \<lparr>d_from = [], d_to = [], deltas = [(''foo'', 5 :: int)]\<rparr> \<noteq> []"
proof -
  have run: "filter_deltas [''foo'' \<mapsto> (\<lambda>x. \<bar>x\<bar> > 3)]
     [\<lparr>d_from = [], d_to = [], deltas = [(''foo'', 2), (''bar'', 1)]\<rparr>,
      \<lparr>d_from = [], d_to = [], deltas = [(''foo'', 5)]\<rparr>,
      \<lparr>d_from = [], d_to = [], deltas = [(''foo'', 1)]\<rparr>] =
   [\<lparr>d_from = [], d_to = [], deltas = [(''bar'', 1)]\<rparr>,
    \<lparr>d_from = [], d_to = [], deltas = [(''foo'', 5)]\<rparr>]"
    by (simp add: filter_deltas_def retained_def)
  from filter_deltas_spec [of "[''foo'' \<mapsto> (\<lambda>x. \<bar>x\<bar> > 3)]"
      "[\<lparr>d_from = [], d_to = [], deltas = [(''foo'', 2), (''bar'', 1)]\<rparr>,
        \<lparr>d_from = [], d_to = [], deltas = [(''foo'', 5)]\<rparr>,
        \<lparr>d_from = [], d_to = [], deltas = [(''foo'', 1)]\<rparr>]"]
  have "\<forall>d\<in>set (filter_deltas [''foo'' \<mapsto> (\<lambda>x. \<bar>x\<bar> > 3)]
     [\<lparr>d_from = [], d_to = [], deltas = [(''foo'', 2), (''bar'', 1)]\<rparr>,
      \<lparr>d_from = [], d_to = [], deltas = [(''foo'', 5)]\<rparr>,
      \<lparr>d_from = [], d_to = [], deltas = [(''foo'', 1)]\<rparr>]). deltas d \<noteq> []"
    by blast
  with run show ?thesis by simp
qed

subsection \<open>The month normaliser\<close>

text \<open>
  C6, as the code has it. The month normaliser maps each of the twelve lower-case
  abbreviations \<open>jan\<close>, .., \<open>dec\<close> to its number 1, .., 12. The lookup is exact: every
  other token, also an abbreviation in another case such as \<open>Jan\<close>, and every integer
  fails with \<open>KeyError\<close>. Whenever the normaliser of a sequence returns, its result
  has the length of the input, and each record is the input record with the number of
  its month under \<open>month\<close> and every other field unchanged.
\<close>

theorem numeric_month_exact:
  "map numeric_month (map PStr [''jan'', ''feb'', ''mar'', ''apr'', ''may'', ''jun'',
                                ''jul'', ''aug'', ''sep'', ''oct'', ''nov'', ''dec'']) =
     map Inr [1, 2, 3, 4, 5, 6, 7, 8, 9, 10, 11, 12] \<and>
   (s \<notin> set month_words \<longrightarrow> numeric_month (PStr s) = Inl KeyError) \<and>
   numeric_month (PInt n) = Inl KeyError \<and>
   (\<forall>bs. numeric_months as = Inr bs \<longrightarrow>
      length bs = length as \<and>
      (\<forall>i<length as. \<exists>s n.
         map_of (as ! i) ''month'' = Some (PStr s) \<and> numeric_month (PStr s) = Inr n \<and>
         map_of (bs ! i) ''month'' = Some (PInt n) \<and>
         (\<forall>k. k \<noteq> ''month'' \<longrightarrow> map_of (bs ! i) k = map_of (as ! i) k)))"
proof (intro conjI allI impI)
  show "map numeric_month (map PStr [''jan'', ''feb'', ''mar'', ''apr'', ''may'', ''jun'',
                                ''jul'', ''aug'', ''sep'', ''oct'', ''nov'', ''dec'']) =
     map Inr [1, 2, 3, 4, 5, 6, 7, 8, 9, 10, 11, 12]"
    by (simp add: numeric_month_def getitem_def months_table)
next
  assume "s \<notin> set month_words"
  then show "numeric_month (PStr s) = Inl KeyError" by (rule numeric_month_unknown)
next
  show "numeric_month (PInt n) = Inl KeyError" by (simp add: numeric_month_def)
next
  fix bs assume "numeric_months as = Inr bs"
  then show "length bs = length as"
    using map_err_Inr by (fastforce simp: numeric_months_def)
next
  fix bs i assume r: "numeric_months as = Inr bs" and i: "i < length as"
  from numeric_months_Inr [OF r i] obtain s n where
    "map_of (as ! i) ''month'' = Some (PStr s)" "map_of months s = Some n"
    "bs ! i = AList.update ''month'' (PInt n) (as ! i)"
    by blast
  then have "map_of (as ! i) ''month'' = Some (PStr s) \<and> numeric_month (PStr s) = Inr n \<and>
         map_of (bs ! i) ''month'' = Some (PInt n) \<and>
         (\<forall>k. k \<noteq> ''month'' \<longrightarrow> map_of (bs ! i) k = map_of (as ! i) k)"
    by (simp add: numeric_month_def getitem_def AList.update_conv')
  then show "\<exists>s n. map_of (as ! i) ''month'' = Some (PStr s) \<and> numeric_month (PStr s) = Inr n \<and>
         map_of (bs ! i) ''month'' = Some (PInt n) \<and>
         (\<forall>k. k \<noteq> ''month'' \<longrightarrow> map_of (bs ! i) k = map_of (as ! i) k)"
    by blast
qed

theorem numeric_month_exact_witness:
  "''Jan'' \<notin> set month_words \<and> numeric_month (PStr ''Jan'') = Inl KeyError \<and>
   numeric_months [alias_jan15, alias_jan01] =
     Inr [AList.update ''month'' (PInt 1) alias_jan15,
          AList.update ''month'' (PInt 1) alias_jan01] \<and>
   length [AList.update ''month'' (PInt 1) alias_jan15,
           AList.update ''month'' (PInt 1) alias_jan01] = length [alias_jan15, alias_jan01] \<and>
   map_of (AList.update ''month'' (PInt 1) alias_jan15) ''height'' =
     map_of alias_jan15 ''height''"
proof -
  have a: "''Jan'' \<notin> set month_words" by (simp add: month_words_def)
  have run: "numeric_months [alias_jan15, alias_jan01] =
     Inr [AList.update ''month'' (PInt 1) alias_jan15,
          AList.update ''month'' (PInt 1) alias_jan01]"
    by (simp add: numeric_months_def numeric_month_def getitem_def months_table
        alias_jan15_def alias_jan01_def)
  from numeric_month_exact [of "''Jan''" 0 "[alias_jan15, alias_jan01]"] a run
  show ?thesis by (simp add: AList.update_conv')
qed

text \<open>
  C6 as stated fails: the lookup is not case-insensitive. The token \<open>Jan\<close> is not
  mapped to 1; it fails with \<open>KeyError\<close>.
\<close>

theorem numeric_month_case_counterexample:
  "numeric_month (PStr ''Jan'') = Inl KeyError \<and> numeric_month (PStr ''Jan'') \<noteq> Inr 1"
  by (simp add: numeric_month_def getitem_def months_table)

subsection \<open>The sorted output\<close>



subsection \<open>The anonymiser\<close>




text \<open>
  C10. A change dated from a record with a month of three letters, a day of one digit
  and an hour of two digits makes the anonymiser raise: \<open>int()\<close> is applied to the
  second digit of the hour and the colon, and fails with \<open>ValueError\<close>. Every report
  that holds such a change is answered by an error and not by an anonymised record.
\<close>

theorem anonymise_one_digit_day_raises:
  assumes "map_of o' ''month'' = Some (PStr m)" "length m = 3"
    and "map_of o' ''day'' = Some (PInt d)" "0 \<le> d" "d \<le> 9"
    and "map_of o' ''hour'' = Some (PInt h)" "0 \<le> h" "h \<le> 99"
    and "map_of o' ''minute'' = Some mi"
    and "format_date o' = Inr (date c)"
    and "c \<in> set (suspicious_profile_changes desc)"
  shows "anonymise_change c = Inl ValueError \<and>
         (\<exists>e. anonymise desc = Inl e) \<and>
         (zwiftpower_points desc \<noteq> None \<longrightarrow> anonymise desc = Inl ValueError)"
proof -
  from format_date_single_digit_day [OF assms(1-9)] assms(10)
  have "take 2 (drop 7 (date c)) = [digit_char (nat h mod 10), CHR '':'']" by auto
  then have c: "anonymise_change c = Inl ValueError"
    by (simp add: anonymise_change_def py_int_colon)
  from map_err_Inl [of c _ anonymise_change ValueError, OF assms(11) c] obtain e where
    e: "map_err anonymise_change (suspicious_profile_changes desc) = Inl e"
    by blast
  from map_err_Inl_same [OF e] anonymise_change_error have "e = ValueError" by blast
  with e have "zwiftpower_points desc \<noteq> None \<longrightarrow> anonymise desc = Inl ValueError"
    by (auto simp: anonymise_def)
  moreover from e have "\<exists>e. anonymise desc = Inl e"
    by (cases "zwiftpower_points desc") (auto simp: anonymise_def)
  ultimately show ?thesis using c by blast
qed

theorem anonymise_one_digit_day_raises_witness:
  "describe_suspicious_profile one_digit_profile =
     Inr (Some \<lparr>zwiftid = 1, zwiftpower_points = Some 137,
                suspicious_profile_changes =
                  [\<lparr>date = ''Jan 5 09:05'', height_change = - 7\<rparr>]\<rparr>) \<and>
   format_date alias_jan05 = Inr ''Jan 5 09:05'' \<and>
   anonymise_change \<lparr>date = ''Jan 5 09:05'', height_change = - 7\<rparr> = Inl ValueError \<and>
   anonymise \<lparr>zwiftid = 1, zwiftpower_points = Some 137,
              suspicious_profile_changes =
                [\<lparr>date = ''Jan 5 09:05'', height_change = - 7\<rparr>]\<rparr> = Inl ValueError"
proof -
  have f: "format_date alias_jan05 = Inr ''Jan 5 09:05''"
    by (simp add: format_date_def getitem_def alias_jan05_def capitalize_def to_upper_def
        to_lower_def lower_letters_def upper_letters_def format_plain_def format_02_def
        str_int_def str_nat.simps digit_char_def)
  have run: "describe_suspicious_profile one_digit_profile =
     Inr (Some \<lparr>zwiftid = 1, zwiftpower_points = Some 137,
                suspicious_profile_changes =
                  [\<lparr>date = ''Jan 5 09:05'', height_change = - 7\<rparr>]\<rparr>)"
  proof -
    have bf: "backfill_heights [alias_jan05, alias_jan01] = Inr [alias_jan05, alias_jan01]"
      by (simp add: backfill_heights_def getitem_def alias_jan05_def alias_jan01_def)
    have gd: "get_suspicious_deltas [alias_jan05, alias_jan01] =
        Inr [\<lparr>d_from = alias_jan01, d_to = alias_jan05, deltas = [(''height'', - 7)]\<rparr>]"
      by (simp add: get_suspicious_deltas_def get_deltas_def filter_deltas_def retained_def
          height_policy_def getitem_def alias_jan05_def alias_jan01_def)
    show ?thesis
      by (simp add: describe_suspicious_profile_def one_digit_profile_def bf gd
          describe_suspicious_delta_def f getitem_def)
  qed
  from anonymise_one_digit_day_raises [of alias_jan05 "''jan''" 5 9 "PInt 5"
      "\<lparr>date = ''Jan 5 09:05'', height_change = - 7\<rparr>"
      "\<lparr>zwiftid = 1, zwiftpower_points = Some 137,
        suspicious_profile_changes = [\<lparr>date = ''Jan 5 09:05'', height_change = - 7\<rparr>]\<rparr>"]
    f run
  show ?thesis by (simp add: alias_jan05_def)
qed

end
